theory Spec2Isabelle
  imports Complex_Main "HOL-Library.Multiset" "HOL-Library.Char_ord" "HOL-Library.List_Lexorder"
    "HOL-Library.Product_Lexorder"
begin

section \<open>Strings and Python's string primitives\<close>

text \<open>
  Codes are Python \<open>str\<close> values; they are modelled as \<open>string\<close>, one \<open>char\<close> per
  code point, for ASCII text. \<open>str.split(".")\<close> cuts at every dot and keeps empty
  pieces, so the result is never the empty list.
\<close>

fun split_dot :: "string \<Rightarrow> string list" where
  "split_dot [] = [[]]"
| "split_dot (c # cs) =
     (if c = CHR ''.'' then [] # split_dot cs
      else (c # hd (split_dot cs)) # tl (split_dot cs))"

text \<open>\<open>sep.join(parts)\<close> with \<open>sep = "."\<close>.\<close>

fun join_dot :: "string list \<Rightarrow> string" where
  "join_dot [] = []"
| "join_dot [s] = s"
| "join_dot (s # t # ss) = s @ CHR ''.'' # join_dot (t # ss)"

text \<open>\<open>s.startswith(p)\<close> and \<open>s.count(".")\<close>.\<close>

fun startswith :: "string \<Rightarrow> string \<Rightarrow> bool" where
  "startswith s [] = True"
| "startswith [] (p # ps) = False"
| "startswith (c # cs) (p # ps) = (c = p \<and> startswith cs ps)"

definition count_dot :: "string \<Rightarrow> nat" where
  "count_dot s = length (filter (\<lambda>c. c = CHR ''.'') s)"

subsection \<open>Python's \<open>int(str)\<close> in base 10\<close>

text \<open>
  \<open>int(s)\<close> strips ASCII white space (tab, line feed, vertical tab, form feed, carriage
  return, space) on both sides, accepts one optional sign, and then wants a non-empty
  run of decimal digits in which single underscores may stand between two digits.
  Anything else raises \<open>ValueError\<close>, which is \<open>None\<close> here.
\<close>

definition is_space :: "char \<Rightarrow> bool" where
  "is_space c = (c \<in> set [CHR 0x09, CHR 0x0A, CHR 0x0B, CHR 0x0C, CHR 0x0D, CHR 0x20])"

definition is_digit :: "char \<Rightarrow> bool" where
  "is_digit c = (c \<in> set ''0123456789'')"

definition digit_val :: "char \<Rightarrow> nat" where
  "digit_val c = of_char c - 48"

fun parse_digits :: "string \<Rightarrow> nat \<Rightarrow> nat option" where
  "parse_digits [] acc = Some acc"
| "parse_digits [c] acc = (if is_digit c then Some (10 * acc + digit_val c) else None)"
| "parse_digits (c # d # ds) acc =
     (if is_digit c then parse_digits (d # ds) (10 * acc + digit_val c)
      else if c = CHR ''_'' \<and> is_digit d then parse_digits ds (10 * acc + digit_val d)
      else None)"

definition parse_unsigned :: "string \<Rightarrow> nat option" where
  "parse_unsigned s =
     (case s of [] \<Rightarrow> None
      | c # cs \<Rightarrow> if is_digit c then parse_digits cs (digit_val c) else None)"

definition strip :: "string \<Rightarrow> string" where
  "strip s = rev (dropWhile is_space (rev (dropWhile is_space s)))"

definition py_int :: "string \<Rightarrow> int option" where
  "py_int s =
     (case strip s of
        [] \<Rightarrow> None
      | c # cs \<Rightarrow>
          if c = CHR ''-'' then map_option (\<lambda>n. - int n) (parse_unsigned cs)
          else if c = CHR ''+'' then map_option int (parse_unsigned cs)
          else map_option int (parse_unsigned (c # cs)))"

section \<open>Code parser and ordering key\<close>

text \<open>
  \<open>_parse_key\<close> of \<open>funciones/crear_detallado.py\<close>: every segment goes through
  \<open>int\<close>, and the \<open>except\<close> branch appends 0. The key is a tuple of Python integers, a
  list of \<open>int\<close> here; tuples compare lexicographically, as lists do.
\<close>

definition parse_key :: "string \<Rightarrow> int list" where
  "parse_key code =
     map (\<lambda>seg. case py_int seg of Some n \<Rightarrow> n | None \<Rightarrow> 0) (split_dot code)"

text \<open>
  \<open>_parse_key\<close> of \<open>funciones/crear_pdf.py\<close> retries a rejected segment after
  \<open>seg.lstrip("0") or "0"\<close> before it gives up with 0.
\<close>

definition lstrip0 :: "string \<Rightarrow> string" where
  "lstrip0 s = dropWhile (\<lambda>c. c = CHR ''0'') s"

definition parse_key_pdf :: "string \<Rightarrow> int list" where
  "parse_key_pdf code =
     map (\<lambda>seg. case py_int seg of
                  Some n \<Rightarrow> n
                | None \<Rightarrow> (case py_int (if lstrip0 seg = [] then ''0'' else lstrip0 seg) of
                             Some n \<Rightarrow> n
                           | None \<Rightarrow> 0))
         (split_dot code)"

text \<open>
  The decimal reading of a run of digits, for stating what \<open>int\<close> returns on it.
\<close>

definition all_digits :: "string \<Rightarrow> bool" where
  "all_digits s = (s \<noteq> [] \<and> list_all is_digit s)"


section \<open>Parent discovery and children lookup\<close>

text \<open>
  \<open>children_by_parent\<close> is a Python \<open>dict\<close>, which keeps insertion order: an association
  list. \<open>d.setdefault(k, []).append(v)\<close> appends to the entry of \<open>k\<close> or opens one at
  the end.
\<close>

fun setdefault_append ::
  "(string \<times> string list) list \<Rightarrow> string \<Rightarrow> string \<Rightarrow> (string \<times> string list) list" where
  "setdefault_append [] k v = [(k, [v])]"
| "setdefault_append ((k', vs) # d) k v =
     (if k' = k then (k', vs @ [v]) # d else (k', vs) # setdefault_append d k v)"

text \<open>
  \<open>sorted(set(parents), key=_parse_key)\<close>: the set drops duplicates and is iterated in
  an order Python does not fix (string hashes are salted per process); \<open>sorted\<close> is
  stable, so that order shows between codes with equal keys. The iteration order is the
  parameter \<open>set_iter\<close>, any rearrangement of its argument.

  \<open>_collect_parents\<close> of \<open>funciones/crear_detallado.py\<close> files every code with a dot
  under its first segment only; \<open>parents_step\<close> is the body of its loop.
\<close>

definition parents_step :: "(string \<times> string list) list \<Rightarrow> string \<Rightarrow> (string \<times> string list) list" where
  "parents_step children_by_parent it =
     (let segs = split_dot it
      in if length segs \<ge> 2 then setdefault_append children_by_parent (hd segs) it
         else children_by_parent)"

definition collect_parents :: "(string list \<Rightarrow> string list) \<Rightarrow> string list \<Rightarrow> string list" where
  "collect_parents set_iter items =
     (let children_by_parent = foldl parents_step [] items;
          parents = map fst (filter (\<lambda>(p, childs). length childs > 0) children_by_parent)
      in sort_key parse_key (set_iter (remdups parents)))"

text \<open>
  \<open>_collect_parents\<close> of \<open>funciones/crear_pdf.py\<close> files a code with a dot under the
  code without its last segment and under its first segment.
\<close>

definition parents_step_pdf :: "(string \<times> string list) list \<Rightarrow> string \<Rightarrow> (string \<times> string list) list" where
  "parents_step_pdf children_by_parent it =
     (let segs = split_dot it;
          d1 = (if length segs \<ge> 2
                then setdefault_append children_by_parent (join_dot (butlast segs)) it
                else children_by_parent);
          top = hd segs
      in if top \<noteq> it \<and> startswith it (top @ ''.'') then setdefault_append d1 top it else d1)"

definition collect_parents_pdf :: "(string list \<Rightarrow> string list) \<Rightarrow> string list \<Rightarrow> string list" where
  "collect_parents_pdf set_iter items =
     (let children_by_parent = foldl parents_step_pdf [] items;
          parents = map fst (filter (\<lambda>(p, childs). length childs > 0) children_by_parent)
      in sort_key parse_key_pdf (set_iter (remdups parents)))"

text \<open>
  \<open>_children_of_parent\<close>: \<open>crear_detallado.py\<close> keeps every code under the prefix,
  \<open>crear_pdf.py\<close> only those with exactly one more dot than the parent. Neither takes
  a flag.
\<close>

definition children_of_parent :: "string list \<Rightarrow> string \<Rightarrow> string list" where
  "children_of_parent items parent =
     (let pref = parent @ ''.''
      in sort_key parse_key (filter (\<lambda>it. startswith it pref) items))"

definition children_of_parent_pdf :: "string list \<Rightarrow> string \<Rightarrow> string list" where
  "children_of_parent_pdf items parent =
     (let pref = parent @ ''.''
      in sort_key parse_key_pdf
           (filter (\<lambda>it. startswith it pref \<and> count_dot it = count_dot parent + 1) items))"

text \<open>
  The contracts in the words of the specification, for comparison: the depth of a code
  is the number of its dot-separated segments; \<open>P\<close> is a parent when some code of the
  set starts with \<open>P + "."\<close> and is exactly one level deeper; \<open>children_of\<close> carries the
  flag \<open>direct_only\<close>.
\<close>

definition depth :: "string \<Rightarrow> nat" where
  "depth code = length (split_dot code)"

definition is_parent_of :: "string \<Rightarrow> string \<Rightarrow> bool" where
  "is_parent_of P C = (startswith C (P @ ''.'') \<and> depth C = depth P + 1)"

definition children_of_spec ::
  "(string \<Rightarrow> int list) \<Rightarrow> string list \<Rightarrow> string \<Rightarrow> bool \<Rightarrow> string list" where
  "children_of_spec key codes parent direct_only =
     sort_key key
       (filter (\<lambda>c. startswith c (parent @ ''.'') \<and> (direct_only \<longrightarrow> depth c = depth parent + 1))
          codes)"

section \<open>Tables\<close>

text \<open>
  Rows of \<open>datos.csv\<close>, \<open>detalle.csv\<close>, the catalogue and \<open>monedas.csv\<close> as data frames
  hold them after loading. Code columns hold text. A numeric cell is what
  \<open>pd.to_numeric(..., errors="coerce")\<close> makes of it: \<open>None\<close> is NaN (an empty or
  non-numeric cell). Amounts are real numbers; rounding and overflow of binary floating
  point are not modelled.
\<close>

record datos_row =
  Item :: string
  Partida :: string
  Fecha :: string
  cantidad_tipo :: string
  cantidad_numero :: "real option"
  moneda :: "string option"

record detalle_row =
  det_item :: string
  det_Codigo :: string
  det_cantidad :: "real option"

record maestro_row =
  cat_Codigo :: string
  cat_Pres :: "real option"


datatype error = FileNotFoundError | ValueError | ZeroDivisionError

text \<open>Python float arithmetic with NaN as \<open>None\<close>; \<open>/\<close> raises on a zero divisor.\<close>

definition fadd :: "real option \<Rightarrow> real option \<Rightarrow> real option" where
  "fadd a b = (case a of None \<Rightarrow> None | Some x \<Rightarrow> (case b of None \<Rightarrow> None | Some y \<Rightarrow> Some (x + y)))"

definition fmul :: "real \<Rightarrow> real option \<Rightarrow> real option" where
  "fmul x b = (case b of None \<Rightarrow> None | Some y \<Rightarrow> Some (x * y))"


definition fillna :: "real \<Rightarrow> real option \<Rightarrow> real" where
  "fillna d x = (case x of None \<Rightarrow> d | Some v \<Rightarrow> v)"

section \<open>Currencies (\<open>funciones/monedas.py\<close>)\<close>







section \<open>Price aggregation\<close>

text \<open>
  \<open>df_detalle.merge(df_maestro[["Codigo", "Pres"]], on="Codigo", how="left")\<close>: every
  detail row, in order, once per catalogue row with its code, or once with a NaN price
  when the catalogue has none.
\<close>

definition merge_left :: "detalle_row list \<Rightarrow> maestro_row list \<Rightarrow> (detalle_row \<times> real option) list" where
  "merge_left df_detalle df_maestro =
     concat (map (\<lambda>d. case filter (\<lambda>c. cat_Codigo c = det_Codigo d) df_maestro of
                          [] \<Rightarrow> [(d, None)]
                        | ms \<Rightarrow> map (\<lambda>c. (d, cat_Pres c)) ms)
                 df_detalle)"

text \<open>\<open>groupby(key)[col].sum().to_dict()\<close> as a map from the key to the sum of its rows.\<close>

definition groupby_sum :: "(string \<times> real) list \<Rightarrow> (string \<rightharpoonup> real)" where
  "groupby_sum rows k =
     (if k \<in> set (map fst rows) then Some (sum_list (map snd (filter (\<lambda>r. fst r = k) rows)))
      else None)"

text \<open>
  \<open>_compute_precio_unitario_por_item\<close> (the same in \<open>crear_detallado.py\<close> and
  \<open>crear_pdf.py\<close>). The first argument is \<open>detalle.csv\<close> as loaded, \<open>None\<close> when the file
  does not exist.
\<close>

definition compute_precio_unitario_por_item ::
  "detalle_row list option \<Rightarrow> maestro_row list \<Rightarrow> (string \<rightharpoonup> real)" where
  "compute_precio_unitario_por_item detalle_csv df_maestro =
     (case detalle_csv of
        None \<Rightarrow> Map.empty
      | Some df_detalle \<Rightarrow>
          if df_detalle = [] then Map.empty
          else
            let det_full = merge_left df_detalle df_maestro;
                subtotal_linea =
                  map (\<lambda>(d, pres). (det_item d, fillna 0 (det_cantidad d) * fillna 0 pres)) det_full
            in groupby_sum subtotal_linea)"

text \<open>\<open>float(precios_item.get(str(child), 0.0))\<close>, the unit price the reports use.\<close>

definition unit_price :: "string \<Rightarrow> detalle_row list \<Rightarrow> maestro_row list \<Rightarrow> real" where
  "unit_price item_code detail_rows catalog =
     (case compute_precio_unitario_por_item (Some detail_rows) catalog item_code of
        None \<Rightarrow> 0 | Some v \<Rightarrow> v)"


section \<open>Report assembly\<close>

text \<open>
  \<open>float(pd.to_numeric(cell, errors="coerce") or 0.0)\<close>: a zero is replaced by 0.0, and
  NaN, which is true in Python, stays NaN.
\<close>

definition cant_of :: "datos_row \<Rightarrow> real option" where
  "cant_of r = (case cantidad_numero r of None \<Rightarrow> None | Some v \<Rightarrow> if v = 0 then Some 0 else Some v)"







text \<open>
  \<open>generar_pdf_presupuesto\<close> reads \<open>datos.csv\<close> without a \<open>dtype\<close>: pandas infers the type
  of \<open>Item\<close>. \<open>Item\<close> below is \<open>df_datos["Item"].astype(str)\<close>; the index keeps the
  inferred type, and a string is found in it only when the column holds strings.
\<close>

datatype dtype = Object | Float64 | Int64

fun childs_loop_pdf ::
  "dtype \<Rightarrow> datos_row list \<Rightarrow> (string \<rightharpoonup> real) \<Rightarrow> string list \<Rightarrow> real option \<Rightarrow> error + real option" where
  "childs_loop_pdf item_dtype df_datos precios_item [] total_parent = Inr total_parent"
| "childs_loop_pdf item_dtype df_datos precios_item (child # rest) total_parent =
     (case (if item_dtype = Object then filter (\<lambda>r. Item r = child) df_datos else []) of
        [] \<Rightarrow> childs_loop_pdf item_dtype df_datos precios_item rest total_parent
      | [row] \<Rightarrow>
          (let cant_child = cant_of row;
               punit = (case precios_item child of None \<Rightarrow> 0 | Some v \<Rightarrow> v);
               total_child = fmul punit cant_child
           in childs_loop_pdf item_dtype df_datos precios_item rest (fadd total_parent total_child))
      | _ # _ # _ \<Rightarrow> Inl ValueError)"

fun parents_loop_pdf ::
  "dtype \<Rightarrow> datos_row list \<Rightarrow> (string \<rightharpoonup> real) \<Rightarrow> string list \<Rightarrow> string list \<Rightarrow> real option
     \<Rightarrow> error + real option" where
  "parents_loop_pdf item_dtype df_datos precios_item items [] total_presupuesto = Inr total_presupuesto"
| "parents_loop_pdf item_dtype df_datos precios_item items (parent # rest) total_presupuesto =
     (case children_of_parent_pdf items parent of
        [] \<Rightarrow> parents_loop_pdf item_dtype df_datos precios_item items rest total_presupuesto
      | child0 # childs' \<Rightarrow>
          (case (if item_dtype = Object then filter (\<lambda>r. Item r = child0) df_datos else []) of
             _ # _ # _ \<Rightarrow> Inl ValueError
           | _ \<Rightarrow>
              (case childs_loop_pdf item_dtype df_datos precios_item (child0 # childs') (Some 0) of
                 Inl e \<Rightarrow> Inl e
               | Inr total_parent \<Rightarrow>
                   parents_loop_pdf item_dtype df_datos precios_item items rest
                     (fadd total_presupuesto total_parent))))"

definition generar_pdf_presupuesto ::
  "(string list \<Rightarrow> string list) \<Rightarrow> dtype \<Rightarrow> datos_row list option \<Rightarrow> detalle_row list option
     \<Rightarrow> maestro_row list \<Rightarrow> error + real option" where
  "generar_pdf_presupuesto set_iter item_dtype datos_csv detalle_csv df_maestro =
     (case (datos_csv, detalle_csv) of
        (Some df_datos, Some df_detalle) \<Rightarrow>
          (let items = sort_key parse_key_pdf (map Item df_datos);
               parents = collect_parents_pdf set_iter items;
               precios_item = compute_precio_unitario_por_item detalle_csv df_maestro
           in parents_loop_pdf item_dtype df_datos precios_item items parents (Some 0))
      | _ \<Rightarrow> Inl FileNotFoundError)"




definition has_dot :: "string \<Rightarrow> bool" where
  "has_dot code = (CHR ''.'' \<in> set code)"



text \<open>Rows for the worked examples: an item priced in pesos, a detail line, a catalogue entry.\<close>

definition item_row :: "string \<Rightarrow> real \<Rightarrow> datos_row" where
  "item_row code qty =
     \<lparr>Item = code, Partida = [], Fecha = [], cantidad_tipo = [],
      cantidad_numero = Some qty, moneda = Some ''CLP''\<rparr>"

definition detail_row :: "string \<Rightarrow> string \<Rightarrow> real \<Rightarrow> detalle_row" where
  "detail_row code cat qty = \<lparr>det_item = code, det_Codigo = cat, det_cantidad = Some qty\<rparr>"

definition catalog_row :: "string \<Rightarrow> real \<Rightarrow> maestro_row" where
  "catalog_row cat price = \<lparr>cat_Codigo = cat, cat_Pres = Some price\<rparr>"

section \<open>Editing the detail table (\<open>funciones/modificar_presupuesto.py\<close>)\<close>











section \<open>Reading item codes from CSV\<close>

text \<open>
  \<open>pd.read_csv\<close> without a \<open>dtype\<close> infers the type of a column from its cells. The
  fragment modelled: a column of runs of digits becomes \<open>int64\<close>; a column of runs of
  digits and decimal numerals \<open>digits.digits\<close> becomes \<open>float64\<close>; a column of such cells
  and dotted codes of three or more numeric segments stays text. Numerals are taken up
  to 15 digits with at most 4 decimals, where a float prints as the numeral without
  leading zeros and without trailing zeros after the first decimal. Other columns are
  outside the fragment (\<open>None\<close>). The result is the inferred type and the column as
  \<open>astype(str)\<close> and \<open>to_csv\<close> print it.
\<close>

definition int_cell :: "string \<Rightarrow> bool" where
  "int_cell c = (all_digits c \<and> length c \<le> 15)"

definition float_cell :: "string \<Rightarrow> bool" where
  "float_cell c =
     (case split_dot c of
        [a, b] \<Rightarrow> all_digits a \<and> all_digits b \<and> length a + length b \<le> 15 \<and> length b \<le> 4
      | _ \<Rightarrow> False)"

definition code_cell :: "string \<Rightarrow> bool" where
  "code_cell c = (3 \<le> length (split_dot c) \<and> list_all all_digits (split_dot c))"

definition strip_leading_zeros :: "string \<Rightarrow> string" where
  "strip_leading_zeros s = (case dropWhile (\<lambda>c. c = CHR ''0'') s of [] \<Rightarrow> ''0'' | t \<Rightarrow> t)"

definition strip_trailing_zeros :: "string \<Rightarrow> string" where
  "strip_trailing_zeros s = rev (strip_leading_zeros (rev s))"

definition int_repr :: "string \<Rightarrow> string" where
  "int_repr c = strip_leading_zeros c"

definition float_repr :: "string \<Rightarrow> string" where
  "float_repr c =
     (case split_dot c of
        [a, b] \<Rightarrow> strip_leading_zeros a @ ''.'' @ strip_trailing_zeros b
      | _ \<Rightarrow> strip_leading_zeros c @ ''.0'')"

definition read_csv_Item :: "string list \<Rightarrow> (dtype \<times> string list) option" where
  "read_csv_Item cells =
     (if cells = [] then Some (Object, [])
      else if list_all int_cell cells then Some (Int64, map int_repr cells)
      else if list_all (\<lambda>c. int_cell c \<or> float_cell c) cells then Some (Float64, map float_repr cells)
      else if list_all (\<lambda>c. int_cell c \<or> float_cell c \<or> code_cell c) cells then Some (Object, cells)
      else None)"

text \<open>
  \<open>pd.read_csv(datos_csv, dtype={"Item": str})\<close>, the call of \<open>generar_excel_detallado\<close>,
  keeps every cell as it is stored.
\<close>

definition read_csv_Item_str :: "string list \<Rightarrow> dtype \<times> string list" where
  "read_csv_Item_str cells = (Object, cells)"

text \<open>
  The \<open>Item\<close> column through \<open>load_presupuesto\<close>, which calls \<open>pd.read_csv(datos_p)\<close>, and
  back through \<open>save_presupuesto\<close>, which calls \<open>to_csv\<close>.
\<close>

definition load_presupuesto_Item :: "string list \<Rightarrow> (dtype \<times> string list) option" where
  "load_presupuesto_Item cells = read_csv_Item cells"

definition save_presupuesto_Item :: "dtype \<times> string list \<Rightarrow> string list" where
  "save_presupuesto_Item col = snd col"

section \<open>Facts about the string primitives\<close>

lemma split_dot_nonempty: "split_dot s \<noteq> []"
  by (induction s) auto

lemma length_split_dot: "length (split_dot s) = Suc (count_dot s)"
proof (induction s)
  case Nil
  show ?case by (simp add: count_dot_def)
next
  case (Cons c cs)
  have "length (tl (split_dot cs)) = count_dot cs"
    using Cons by simp
  then show ?case using Cons by (simp add: count_dot_def)
qed

lemma startswith_iff: "startswith s p \<longleftrightarrow> (\<exists>r. s = p @ r)"
  by (induction s p rule: startswith.induct) auto

lemma split_dot_append:
  "split_dot (a @ CHR ''.'' # b) = split_dot a @ split_dot b"
proof (induction a)
  case Nil
  show ?case by simp
next
  case (Cons c a)
  obtain x xs where sa: "split_dot a = x # xs"
    using split_dot_nonempty[of a] by (cases "split_dot a") auto
  show ?case using Cons by (simp add: sa)
qed

lemma split_dot_no_dot: "CHR ''.'' \<notin> set s \<Longrightarrow> split_dot s = [s]"
  by (induction s) auto

lemma split_dot_segments_no_dot: "x \<in> set (split_dot s) \<Longrightarrow> CHR ''.'' \<notin> set x"
proof (induction s arbitrary: x)
  case Nil
  then show ?case by simp
next
  case (Cons c cs)
  obtain y ys where sc: "split_dot cs = y # ys"
    using split_dot_nonempty[of cs] by (cases "split_dot cs") auto
  show ?case
  proof (cases "c = CHR ''.''")
    case True
    with Cons show ?thesis by auto
  next
    case False
    with Cons.prems have "x = c # y \<or> x \<in> set ys" by (simp add: sc)
    then show ?thesis
      using False Cons.IH[of y] Cons.IH[of x] by (auto simp: sc)
  qed
qed

lemma join_dot_split_dot: "join_dot (split_dot s) = s"
proof (induction s)
  case Nil
  show ?case by simp
next
  case (Cons c cs)
  obtain y ys where sc: "split_dot cs = y # ys"
    using split_dot_nonempty[of cs] by (cases "split_dot cs") auto
  show ?case using Cons by (cases ys) (auto simp: sc)
qed

lemma join_dot_Cons: "ss \<noteq> [] \<Longrightarrow> join_dot (s # ss) = s @ CHR ''.'' # join_dot ss"
  by (cases ss) auto

lemma join_dot_snoc: "ss \<noteq> [] \<Longrightarrow> join_dot (ss @ [s]) = join_dot ss @ CHR ''.'' # s"
proof (induction ss)
  case Nil
  then show ?case by simp
next
  case (Cons a ss)
  show ?case
  proof (cases "ss = []")
    case True
    then show ?thesis by simp
  next
    case False
    then show ?thesis using Cons by (simp add: join_dot_Cons)
  qed
qed

lemma split_dot_join_dot:
  "ss \<noteq> [] \<Longrightarrow> \<forall>x \<in> set ss. CHR ''.'' \<notin> set x \<Longrightarrow> split_dot (join_dot ss) = ss"
proof (induction ss)
  case Nil
  then show ?case by simp
next
  case (Cons a ss)
  show ?case
  proof (cases "ss = []")
    case True
    then show ?thesis using Cons.prems by (simp add: split_dot_no_dot)
  next
    case False
    then show ?thesis
      using Cons by (simp add: join_dot_Cons split_dot_append split_dot_no_dot)
  qed
qed

lemma has_dot_iff_depth: "has_dot s \<longleftrightarrow> 2 \<le> length (split_dot s)"
proof -
  have "0 < length (filter (\<lambda>c. c = CHR ''.'') s) \<longleftrightarrow> CHR ''.'' \<in> set s"
    by (auto simp: filter_empty_conv)
  then show ?thesis
    by (simp add: has_dot_def length_split_dot count_dot_def Suc_le_eq)
qed

text \<open>A code with a dot: its first segment and the code without its last segment.\<close>

lemma top_is_prefix:
  assumes "2 \<le> length (split_dot C)"
  shows "startswith C (hd (split_dot C) @ ''.'')" and "\<not> has_dot (hd (split_dot C))"
proof -
  obtain x y ys where sc: "split_dot C = x # y # ys"
    using assms by (cases "split_dot C" rule: list.exhaust; cases "tl (split_dot C)") auto
  have hd: "hd (split_dot C) = x" by (simp add: sc)
  have "C = join_dot (x # y # ys)" using join_dot_split_dot[of C] sc by simp
  then have "C = (x @ ''.'') @ join_dot (y # ys)" by simp
  then have "\<exists>r. C = (x @ ''.'') @ r" by blast
  then show "startswith C (hd (split_dot C) @ ''.'')"
    unfolding hd startswith_iff .
  have "x \<in> set (split_dot C)" by (simp add: sc)
  then have "CHR ''.'' \<notin> set x" by (rule split_dot_segments_no_dot)
  then show "\<not> has_dot (hd (split_dot C))"
    by (simp add: has_dot_def hd)
qed

lemma prefix_is_top:
  assumes "startswith C (P @ ''.'')" and "\<not> has_dot P"
  shows "P = hd (split_dot C)" and "2 \<le> length (split_dot C)"
proof -
  obtain r where C: "C = P @ CHR ''.'' # r"
    using assms(1) by (auto simp: startswith_iff)
  have sp: "split_dot C = P # split_dot r"
    using assms(2) by (simp add: C split_dot_append split_dot_no_dot has_dot_def)
  show "P = hd (split_dot C)" by (simp add: sp)
  show "2 \<le> length (split_dot C)"
    using split_dot_nonempty[of r] by (cases "split_dot r") (auto simp: sp)
qed

lemma butlast_is_parent:
  assumes "2 \<le> length (split_dot C)"
  shows "is_parent_of (join_dot (butlast (split_dot C))) C"
proof -
  let ?segs = "split_dot C"
  have ne: "butlast ?segs \<noteq> []"
    using assms by (cases ?segs rule: list.exhaust; cases "tl ?segs") auto
  have "?segs = butlast ?segs @ [last ?segs]"
    using split_dot_nonempty by simp
  then have "C = join_dot (butlast ?segs @ [last ?segs])"
    using join_dot_split_dot[of C] by simp
  then have C: "C = join_dot (butlast ?segs) @ CHR ''.'' # last ?segs"
    using ne by (simp add: join_dot_snoc)
  have "\<forall>x \<in> set (butlast ?segs). CHR ''.'' \<notin> set x"
    using split_dot_segments_no_dot in_set_butlastD by metis
  then have "split_dot (join_dot (butlast ?segs)) = butlast ?segs"
    using ne by (rule split_dot_join_dot[rotated]) 
  then have "depth C = depth (join_dot (butlast ?segs)) + 1"
    using assms by (simp add: depth_def)
  moreover have "startswith C (join_dot (butlast ?segs) @ ''.'')"
    using C by (auto simp: startswith_iff)
  ultimately show ?thesis by (simp add: is_parent_of_def)
qed

lemma parent_is_butlast:
  assumes "is_parent_of P C"
  shows "P = join_dot (butlast (split_dot C))" and "2 \<le> length (split_dot C)"
proof -
  obtain r where C: "C = P @ CHR ''.'' # r"
    using assms by (auto simp: startswith_iff is_parent_of_def)
  have sp: "split_dot C = split_dot P @ split_dot r"
    by (simp add: C split_dot_append)
  have "length (split_dot r) = 1"
    using assms by (simp add: is_parent_of_def depth_def sp)
  then obtain x where "split_dot r = [x]"
    by (cases "split_dot r") auto
  then have "butlast (split_dot C) = split_dot P"
    by (simp add: sp)
  then show "P = join_dot (butlast (split_dot C))"
    by (simp add: join_dot_split_dot)
  show "2 \<le> length (split_dot C)"
    using assms split_dot_nonempty[of P]
    by (cases "split_dot P") (auto simp: is_parent_of_def depth_def)
qed

lemma count_dot_depth:
  "count_dot it = Suc (count_dot parent) \<longleftrightarrow> depth it = Suc (depth parent)"
  by (simp add: depth_def length_split_dot)

section \<open>Facts about \<open>int\<close>\<close>







section \<open>The ordering key\<close>




section \<open>Currency conversion\<close>









section \<open>Price aggregation\<close>

text \<open>The sum of the catalogue prices listed for a code, NaN counted as 0.\<close>

lemma groupby_sum_get:
  "(case groupby_sum rows k of None \<Rightarrow> 0 | Some v \<Rightarrow> v)
     = sum_list (map snd (filter (\<lambda>r. fst r = k) rows))"
proof (cases "k \<in> set (map fst rows)")
  case True
  then show ?thesis by (simp add: groupby_sum_def)
next
  case False
  then have "filter (\<lambda>r. fst r = k) rows = []"
    by (auto simp: filter_empty_conv)
  then show ?thesis using False by (simp add: groupby_sum_def)
qed

lemma merge_row_sum:
  "sum_list (map snd (filter (\<lambda>r. fst r = k)
      (map (\<lambda>(d, pres). (det_item d, fillna 0 (det_cantidad d) * fillna 0 pres))
         (case filter (\<lambda>c. cat_Codigo c = det_Codigo d) cat of
            [] \<Rightarrow> [(d, None)]
          | ms \<Rightarrow> map (\<lambda>c. (d, cat_Pres c)) ms))))
   = (if det_item d = k
      then fillna 0 (det_cantidad d)
           * sum_list (map (\<lambda>c. fillna 0 (cat_Pres c)) (filter (\<lambda>c. cat_Codigo c = det_Codigo d) cat))
      else 0)"
proof (cases "filter (\<lambda>c. cat_Codigo c = det_Codigo d) cat")
  case Nil
  then show ?thesis by (simp add: fillna_def)
next
  case (Cons m ms)
  have "sum_list (map (\<lambda>c. fillna 0 (det_cantidad d) * fillna 0 (cat_Pres c)) (m # ms))
        = fillna 0 (det_cantidad d) * sum_list (map (\<lambda>c. fillna 0 (cat_Pres c)) (m # ms))"
    by (simp only: sum_list_const_mult)
  then show ?thesis
    by (simp add: Cons comp_def filter_empty_conv del: sum_list.Cons list.map)
      (auto simp: comp_def)
qed

lemma unit_price_formula:
  "unit_price item rows cat =
     sum_list (map (\<lambda>d. fillna 0 (det_cantidad d)
                         * sum_list (map (\<lambda>c. fillna 0 (cat_Pres c))
                                       (filter (\<lambda>c. cat_Codigo c = det_Codigo d) cat)))
                   (filter (\<lambda>d. det_item d = item) rows))"
proof -
  let ?g = "\<lambda>(d, pres). (det_item d, fillna 0 (det_cantidad d) * fillna 0 pres)"
  let ?h = "\<lambda>d. case filter (\<lambda>c. cat_Codigo c = det_Codigo d) cat of
                    [] \<Rightarrow> [(d, None)] | ms \<Rightarrow> map (\<lambda>c. (d, cat_Pres c)) ms"
  let ?rhs = "\<lambda>rows. sum_list (map (\<lambda>d. fillna 0 (det_cantidad d)
                         * sum_list (map (\<lambda>c. fillna 0 (cat_Pres c))
                                       (filter (\<lambda>c. cat_Codigo c = det_Codigo d) cat)))
                   (filter (\<lambda>d. det_item d = item) rows))"
  have step: "sum_list (map snd (filter (\<lambda>r. fst r = item) (map ?g (concat (map ?h rs))))) = ?rhs rs"
    for rs
  proof (induction rs)
    case Nil
    show ?case by simp
  next
    case (Cons d rs)
    have "sum_list (map snd (filter (\<lambda>r. fst r = item) (map ?g (concat (map ?h (d # rs))))))
          = sum_list (map snd (filter (\<lambda>r. fst r = item) (map ?g (?h d))))
            + sum_list (map snd (filter (\<lambda>r. fst r = item) (map ?g (concat (map ?h rs)))))"
      by simp
    also have "\<dots> = (if det_item d = item
        then fillna 0 (det_cantidad d)
             * sum_list (map (\<lambda>c. fillna 0 (cat_Pres c)) (filter (\<lambda>c. cat_Codigo c = det_Codigo d) cat))
        else 0) + ?rhs rs"
      by (simp only: merge_row_sum Cons.IH)
    also have "\<dots> = ?rhs (d # rs)" by simp
    finally show ?case .
  qed
  show ?thesis
  proof (cases "rows = []")
    case True
    then show ?thesis
      by (simp add: unit_price_def compute_precio_unitario_por_item_def)
  next
    case False
    then have "unit_price item rows cat =
        sum_list (map snd (filter (\<lambda>r. fst r = item) (map ?g (concat (map ?h rows)))))"
      by (simp add: unit_price_def compute_precio_unitario_por_item_def merge_left_def
          groupby_sum_get Let_def)
    then show ?thesis by (simp only: step)
  qed
qed




text \<open>
  Claim C8. \<open>unit_price\<close> is a total function: no branch of it raises. A detail row
  whose catalogue code the catalogue does not list adds nothing to the price, a detail
  row whose quantity is not a number adds nothing, and a catalogue row whose price is
  not a number counts as price 0.
\<close>

theorem unit_price_tolerant:
  "((\<forall>c \<in> set catalog. cat_Codigo c \<noteq> det_Codigo d) \<longrightarrow>
      unit_price item_code (rows1 @ d # rows2) catalog = unit_price item_code (rows1 @ rows2) catalog)
   \<and> (det_cantidad d = None \<longrightarrow>
      unit_price item_code (rows1 @ d # rows2) catalog = unit_price item_code (rows1 @ rows2) catalog)
   \<and> (cat_Pres c = None \<longrightarrow>
      unit_price item_code rows (cat1 @ c # cat2) = unit_price item_code rows (cat1 @ cat2))"
proof (intro conjI impI)
  assume "\<forall>c \<in> set catalog. cat_Codigo c \<noteq> det_Codigo d"
  then have "filter (\<lambda>c. cat_Codigo c = det_Codigo d) catalog = []"
    by (simp add: filter_empty_conv)
  then show "unit_price item_code (rows1 @ d # rows2) catalog
             = unit_price item_code (rows1 @ rows2) catalog"
    by (simp add: unit_price_formula)
next
  assume "det_cantidad d = None"
  then show "unit_price item_code (rows1 @ d # rows2) catalog
             = unit_price item_code (rows1 @ rows2) catalog"
    by (simp add: unit_price_formula fillna_def)
next
  assume "cat_Pres c = None"
  then have inner:
    "sum_list (map (\<lambda>c. fillna 0 (cat_Pres c)) (filter (\<lambda>c. cat_Codigo c = k) (cat1 @ c # cat2)))
     = sum_list (map (\<lambda>c. fillna 0 (cat_Pres c)) (filter (\<lambda>c. cat_Codigo c = k) (cat1 @ cat2)))"
    for k
    by (simp add: fillna_def)
  show "unit_price item_code rows (cat1 @ c # cat2) = unit_price item_code rows (cat1 @ cat2)"
    by (simp only: unit_price_formula inner)
qed

theorem unit_price_tolerant_witness:
  "list_all (\<lambda>c. cat_Codigo c
        \<noteq> det_Codigo \<lparr>det_item = ''1.01'', det_Codigo = ''Z'', det_cantidad = Some 4\<rparr>)
     [\<lparr>cat_Codigo = ''A'', cat_Pres = Some 1000\<rparr>]
   \<and> det_cantidad \<lparr>det_item = ''1.01'', det_Codigo = ''A'', det_cantidad = None\<rparr> = None
   \<and> cat_Pres \<lparr>cat_Codigo = ''B'', cat_Pres = None\<rparr> = None
   \<and> unit_price ''1.01''
        [\<lparr>det_item = ''1.01'', det_Codigo = ''A'', det_cantidad = Some 2\<rparr>,
         \<lparr>det_item = ''1.01'', det_Codigo = ''Z'', det_cantidad = Some 4\<rparr>]
        [\<lparr>cat_Codigo = ''A'', cat_Pres = Some 1000\<rparr>] = 2000
   \<and> unit_price ''1.01''
        [\<lparr>det_item = ''1.01'', det_Codigo = ''A'', det_cantidad = Some 2\<rparr>,
         \<lparr>det_item = ''1.01'', det_Codigo = ''A'', det_cantidad = None\<rparr>]
        [\<lparr>cat_Codigo = ''A'', cat_Pres = Some 1000\<rparr>] = 2000
   \<and> unit_price ''1.01''
        [\<lparr>det_item = ''1.01'', det_Codigo = ''B'', det_cantidad = Some 2\<rparr>]
        [\<lparr>cat_Codigo = ''B'', cat_Pres = None\<rparr>] = 0"
proof -
  let ?a = "\<lparr>det_item = ''1.01'', det_Codigo = ''A'', det_cantidad = Some 2\<rparr>"
  let ?z = "\<lparr>det_item = ''1.01'', det_Codigo = ''Z'', det_cantidad = Some 4\<rparr>"
  let ?n = "\<lparr>det_item = ''1.01'', det_Codigo = ''A'', det_cantidad = None\<rparr>"
  let ?b = "\<lparr>det_item = ''1.01'', det_Codigo = ''B'', det_cantidad = Some 2\<rparr>"
  let ?cat = "[\<lparr>cat_Codigo = ''A'', cat_Pres = Some 1000\<rparr>]"
  let ?cb = "\<lparr>cat_Codigo = ''B'', cat_Pres = None\<rparr>"
  have h1: "\<forall>c \<in> set ?cat. cat_Codigo c \<noteq> det_Codigo ?z" by simp
  have h2: "det_cantidad ?n = None" by simp
  have h3: "cat_Pres ?cb = None" by simp
  have base: "unit_price ''1.01'' [?a] ?cat = 2000" "unit_price ''1.01'' [?b] [] = 0"
    by (simp_all add: unit_price_formula fillna_def)
  have 1: "unit_price ''1.01'' [?a, ?z] ?cat = unit_price ''1.01'' [?a] ?cat"
    using unit_price_tolerant[of ?cat ?z "''1.01''" "[?a]" "[]"] h1 by simp
  have 2: "unit_price ''1.01'' [?a, ?n] ?cat = unit_price ''1.01'' [?a] ?cat"
    using unit_price_tolerant[of ?cat ?n "''1.01''" "[?a]" "[]"] h2 by simp
  have 3: "unit_price ''1.01'' [?b] [?cb] = unit_price ''1.01'' [?b] []"
    using unit_price_tolerant[of "[]" ?b "''1.01''" "[]" "[]" ?cb "[?b]" "[]" "[]"] h3 by simp
  show ?thesis using h2 h3 1 2 3 base by simp
qed

section \<open>Parent discovery\<close>


lemma keys_setdefault_append:
  "fst ` set (setdefault_append d k v) = insert k (fst ` set d)"
  by (induction d k v rule: setdefault_append.induct) auto

lemma nonempty_setdefault_append:
  "\<forall>e \<in> set d. snd e \<noteq> [] \<Longrightarrow> \<forall>e \<in> set (setdefault_append d k v). snd e \<noteq> []"
  by (induction d k v rule: setdefault_append.induct) auto

lemma filter_nonempty_all:
  "\<forall>e \<in> set d. snd e \<noteq> [] \<Longrightarrow> filter (\<lambda>(p, childs). length childs > 0) d = d"
  by (induction d) auto

lemma foldl_parents_step:
  "fst ` set (foldl parents_step d items)
     = fst ` set d \<union> {hd (split_dot C) | C. C \<in> set items \<and> 2 \<le> length (split_dot C)}
   \<and> ((\<forall>e \<in> set d. snd e \<noteq> []) \<longrightarrow> (\<forall>e \<in> set (foldl parents_step d items). snd e \<noteq> []))"
proof (induction items arbitrary: d)
  case Nil
  show ?case by simp
next
  case (Cons it items)
  have k: "fst ` set (parents_step d it) =
      fst ` set d \<union> (if 2 \<le> length (split_dot it) then {hd (split_dot it)} else {})"
    by (simp add: parents_step_def keys_setdefault_append Let_def)
  have n: "(\<forall>e \<in> set d. snd e \<noteq> []) \<longrightarrow> (\<forall>e \<in> set (parents_step d it). snd e \<noteq> [])"
    using nonempty_setdefault_append by (simp add: parents_step_def Let_def)
  show ?case
    using Cons.IH[of "parents_step d it"] k n by auto
qed

lemma pdf_top_condition:
  "(hd (split_dot it) \<noteq> it \<and> startswith it (hd (split_dot it) @ ''.'')) \<longleftrightarrow> 2 \<le> length (split_dot it)"
proof
  assume "hd (split_dot it) \<noteq> it \<and> startswith it (hd (split_dot it) @ ''.'')"
  then obtain r where "it = hd (split_dot it) @ ''.'' @ r"
    by (auto simp: startswith_iff)
  then have "CHR ''.'' \<in> set it"
    by (metis append_Cons in_set_conv_decomp)
  then show "2 \<le> length (split_dot it)"
    using has_dot_iff_depth by (simp add: has_dot_def)
next
  assume h: "2 \<le> length (split_dot it)"
  then have "has_dot it" by (simp add: has_dot_iff_depth)
  moreover have "\<not> has_dot (hd (split_dot it))" using h by (rule top_is_prefix)
  ultimately have "hd (split_dot it) \<noteq> it" by auto
  then show "hd (split_dot it) \<noteq> it \<and> startswith it (hd (split_dot it) @ ''.'')"
    using top_is_prefix(1)[OF h] by simp
qed

lemma foldl_parents_step_pdf:
  "fst ` set (foldl parents_step_pdf d items)
     = fst ` set d \<union> {hd (split_dot C) | C. C \<in> set items \<and> 2 \<le> length (split_dot C)}
        \<union> {join_dot (butlast (split_dot C)) | C. C \<in> set items \<and> 2 \<le> length (split_dot C)}
   \<and> ((\<forall>e \<in> set d. snd e \<noteq> []) \<longrightarrow> (\<forall>e \<in> set (foldl parents_step_pdf d items). snd e \<noteq> []))"
proof (induction items arbitrary: d)
  case Nil
  show ?case by simp
next
  case (Cons it items)
  have k: "fst ` set (parents_step_pdf d it) =
      fst ` set d \<union> (if 2 \<le> length (split_dot it)
                       then {hd (split_dot it), join_dot (butlast (split_dot it))} else {})"
    by (auto simp: parents_step_pdf_def keys_setdefault_append Let_def pdf_top_condition)
  have n: "(\<forall>e \<in> set d. snd e \<noteq> []) \<longrightarrow> (\<forall>e \<in> set (parents_step_pdf d it). snd e \<noteq> [])"
  proof
    assume a: "\<forall>e \<in> set d. snd e \<noteq> []"
    define d1 where "d1 = (if 2 \<le> length (split_dot it)
        then setdefault_append d (join_dot (butlast (split_dot it))) it else d)"
    have 1: "\<forall>e \<in> set d1. snd e \<noteq> []"
      unfolding d1_def using a nonempty_setdefault_append[OF a] by simp
    have "parents_step_pdf d it =
        (if hd (split_dot it) \<noteq> it \<and> startswith it (hd (split_dot it) @ ''.'')
         then setdefault_append d1 (hd (split_dot it)) it else d1)"
      by (simp add: parents_step_pdf_def Let_def d1_def)
    then show "\<forall>e \<in> set (parents_step_pdf d it). snd e \<noteq> []"
      using 1 nonempty_setdefault_append[OF 1] by simp
  qed
  show ?case
    using Cons.IH[of "parents_step_pdf d it"] k n by auto
qed

lemma sorted_set_iter:
  assumes "\<forall>xs. mset (set_iter xs) = mset (xs :: string list)"
  shows "set (sort_key k (set_iter (remdups ps))) = set ps"
    and "distinct (sort_key k (set_iter (remdups ps)))"
    and "sorted (map k (sort_key k (set_iter (remdups ps))))"
proof -
  have m: "mset (set_iter (remdups ps)) = mset (remdups ps)" using assms by blast
  then have "set (set_iter (remdups ps)) = set (remdups ps)" by (rule mset_eq_setD)
  then show "set (sort_key k (set_iter (remdups ps))) = set ps" by simp
  have "distinct (set_iter (remdups ps))"
    using m mset_eq_imp_distinct_iff distinct_remdups by blast
  then show "distinct (sort_key k (set_iter (remdups ps)))" by simp
  show "sorted (map k (sort_key k (set_iter (remdups ps))))" by simp
qed

lemma collect_parents_set:
  assumes "\<forall>xs. mset (set_iter xs) = mset (xs :: string list)"
  shows "set (collect_parents set_iter items)
         = {hd (split_dot C) | C. C \<in> set items \<and> 2 \<le> length (split_dot C)}"
proof -
  let ?d = "foldl parents_step [] items"
  have "\<forall>e \<in> set ?d. snd e \<noteq> []" using foldl_parents_step[of "[]" items] by simp
  then have f: "filter (\<lambda>(p, childs). length childs > 0) ?d = ?d" by (rule filter_nonempty_all)
  have "collect_parents set_iter items = sort_key parse_key (set_iter (remdups (map fst ?d)))"
    by (simp only: collect_parents_def Let_def f)
  then show ?thesis
    using sorted_set_iter(1)[OF assms] foldl_parents_step[of "[]" items] by simp
qed

lemma collect_parents_pdf_set:
  assumes "\<forall>xs. mset (set_iter xs) = mset (xs :: string list)"
  shows "set (collect_parents_pdf set_iter items)
         = {hd (split_dot C) | C. C \<in> set items \<and> 2 \<le> length (split_dot C)}
        \<union> {join_dot (butlast (split_dot C)) | C. C \<in> set items \<and> 2 \<le> length (split_dot C)}"
proof -
  let ?d = "foldl parents_step_pdf [] items"
  have "\<forall>e \<in> set ?d. snd e \<noteq> []" using foldl_parents_step_pdf[of "[]" items] by simp
  then have f: "filter (\<lambda>(p, childs). length childs > 0) ?d = ?d" by (rule filter_nonempty_all)
  have "collect_parents_pdf set_iter items = sort_key parse_key_pdf (set_iter (remdups (map fst ?d)))"
    by (simp only: collect_parents_pdf_def Let_def f)
  then show ?thesis
    using sorted_set_iter(1)[OF assms] foldl_parents_step_pdf[of "[]" items] by simp
qed

lemma collect_parents_props:
  assumes "\<forall>xs. mset (set_iter xs) = mset (xs :: string list)"
  shows "distinct (collect_parents set_iter items)"
    and "sorted (map parse_key (collect_parents set_iter items))"
    and "distinct (collect_parents_pdf set_iter items)"
    and "sorted (map parse_key_pdf (collect_parents_pdf set_iter items))"
  using sorted_set_iter(2,3)[OF assms]
  by (simp_all add: collect_parents_def collect_parents_pdf_def Let_def)

lemma tops_char:
  "{hd (split_dot C) | C. C \<in> set items \<and> 2 \<le> length (split_dot C)}
   = {P. \<not> has_dot P \<and> (\<exists>C \<in> set items. startswith C (P @ ''.''))}"
  using top_is_prefix prefix_is_top by blast

lemma direct_char:
  "{join_dot (butlast (split_dot C)) | C. C \<in> set items \<and> 2 \<le> length (split_dot C)}
   = {P. \<exists>C \<in> set items. is_parent_of P C}"
  using butlast_is_parent parent_is_butlast by blast

lemma two_sorted:
  assumes "distinct xs" "set xs = {a, b}" "a \<noteq> b" "sorted (map k xs)" "k a < k b"
  shows "xs = [a, b]"
proof -
  have "length xs = 2" using assms(1,2,3) distinct_card[of xs] by simp
  then obtain x y where xs: "xs = [x, y]"
    by (cases xs; cases "tl xs"; cases "tl (tl xs)") auto
  then have "k x \<le> k y" using assms(4) by simp
  moreover have "(x = a \<and> y = b) \<or> (x = b \<and> y = a)"
    using assms(1,2,3) xs by (auto simp: doubleton_eq_iff)
  ultimately show ?thesis using assms(5) xs by auto
qed

text \<open>
  Claim C2, as the code has it. For any iteration order of the Python set,
  \<open>_collect_parents\<close> returns, without repetition and sorted by the ordering key, the
  codes \<open>P\<close> such that some code \<open>C\<close> of the list starts with \<open>P + "."\<close> and, in
  \<open>crear_detallado.py\<close>, \<open>P\<close> has no dot (the first segment of \<open>C\<close>, whatever the depth
  of \<open>C\<close>); in \<open>crear_pdf.py\<close>, \<open>P\<close> has no dot or \<open>C\<close> is exactly one level deeper than
  \<open>P\<close>. \<open>P\<close> itself need not be in the list. Both return \<open>["1", "2"]\<close> for
  \<open>"1.01", "1.02", "2.01"\<close>.
\<close>

theorem collect_parents_characterised:
  assumes "\<forall>xs. mset (set_iter xs) = mset (xs :: string list)"
  shows "set (collect_parents set_iter items)
           = {P. \<not> has_dot P \<and> (\<exists>C \<in> set items. startswith C (P @ ''.''))}
     \<and> set (collect_parents_pdf set_iter items)
           = {P. \<exists>C \<in> set items. startswith C (P @ ''.'')
                                   \<and> (\<not> has_dot P \<or> depth C = depth P + 1)}
     \<and> distinct (collect_parents set_iter items)
     \<and> sorted (map parse_key (collect_parents set_iter items))
     \<and> distinct (collect_parents_pdf set_iter items)
     \<and> sorted (map parse_key_pdf (collect_parents_pdf set_iter items))
     \<and> collect_parents set_iter [''1.01'', ''1.02'', ''2.01''] = [''1'', ''2'']
     \<and> collect_parents_pdf set_iter [''1.01'', ''1.02'', ''2.01''] = [''1'', ''2'']"
proof -
  have s1: "set (collect_parents set_iter its)
           = {P. \<not> has_dot P \<and> (\<exists>C \<in> set its. startswith C (P @ ''.''))}" for its
    by (simp only: collect_parents_set[OF assms] tops_char)
  have s2: "set (collect_parents_pdf set_iter its)
           = {P. \<exists>C \<in> set its. startswith C (P @ ''.'')
                                   \<and> (\<not> has_dot P \<or> depth C = depth P + 1)}" for its
  proof -
    have "set (collect_parents_pdf set_iter its)
          = {P. \<not> has_dot P \<and> (\<exists>C \<in> set its. startswith C (P @ ''.''))}
            \<union> {P. \<exists>C \<in> set its. is_parent_of P C}"
      by (simp only: collect_parents_pdf_set[OF assms] tops_char direct_char)
    then show ?thesis by (auto simp: is_parent_of_def)
  qed
  note p = collect_parents_props[OF assms]
  let ?ex = "[''1.01'', ''1.02'', ''2.01'']"
  have ev: "map (\<lambda>C. hd (split_dot C)) (filter (\<lambda>C. 2 \<le> length (split_dot C)) ?ex)
              = [''1'', ''1'', ''2'']"
    "map (\<lambda>C. join_dot (butlast (split_dot C))) (filter (\<lambda>C. 2 \<le> length (split_dot C)) ?ex)
              = [''1'', ''1'', ''2'']"
    by code_simp+
  have "{hd (split_dot C) | C. C \<in> set ?ex \<and> 2 \<le> length (split_dot C)}
        = set (map (\<lambda>C. hd (split_dot C)) (filter (\<lambda>C. 2 \<le> length (split_dot C)) ?ex))"
    unfolding set_map set_filter by blast
  then have tops:
    "{hd (split_dot C) | C. C \<in> set ?ex \<and> 2 \<le> length (split_dot C)} = {''1'', ''2''}"
    unfolding ev by simp
  have "{join_dot (butlast (split_dot C)) | C. C \<in> set ?ex \<and> 2 \<le> length (split_dot C)}
        = set (map (\<lambda>C. join_dot (butlast (split_dot C)))
                 (filter (\<lambda>C. 2 \<le> length (split_dot C)) ?ex))"
    unfolding set_map set_filter by blast
  then have buts:
    "{join_dot (butlast (split_dot C)) | C. C \<in> set ?ex \<and> 2 \<le> length (split_dot C)}
              = {''1'', ''2''}"
    unfolding ev by simp
  have k: "parse_key ''1'' < parse_key ''2''" "parse_key_pdf ''1'' < parse_key_pdf ''2''"
    by code_simp+
  have e1: "collect_parents set_iter ?ex = [''1'', ''2'']"
  proof (rule two_sorted[where k = parse_key])
    show "set (collect_parents set_iter ?ex) = {''1'', ''2''}"
      by (simp only: collect_parents_set[OF assms] tops)
  qed (use p k in simp_all)
  have e2: "collect_parents_pdf set_iter ?ex = [''1'', ''2'']"
  proof (rule two_sorted[where k = parse_key_pdf])
    show "set (collect_parents_pdf set_iter ?ex) = {''1'', ''2''}"
      by (simp only: collect_parents_pdf_set[OF assms] tops buts Un_absorb)
  qed (use p k in simp_all)
  show ?thesis
    using s1[of items] s2[of items] p[of items] e1 e2 by blast
qed

theorem collect_parents_characterised_witness:
  "(\<forall>xs. mset (rev xs) = mset (xs :: string list))
   \<and> collect_parents rev [''1.01'', ''1.02'', ''2.01''] = [''1'', ''2'']
   \<and> collect_parents_pdf rev [''1.01'', ''1.02'', ''2.01''] = [''1'', ''2'']"
proof -
  have h: "\<forall>xs. mset (rev xs) = mset (xs :: string list)" by simp
  from collect_parents_characterised[OF h, of "[]"] h show ?thesis by blast
qed

theorem collect_parents_depth_counterexample:
  "collect_parents (\<lambda>xs. xs) [''1.01.01''] = [''1'']
   \<and> collect_parents_pdf (\<lambda>xs. xs) [''1.01.01''] = [''1'', ''1.01'']
   \<and> \<not> is_parent_of ''1'' ''1.01.01'' \<and> is_parent_of ''1.01'' ''1.01.01''"
  by code_simp

section \<open>Children lookup\<close>

text \<open>
  Claim C4, as the code has it. \<open>_children_of_parent\<close> returns the codes of the list
  that start with \<open>parent + "."\<close>, sorted by the ordering key (codes with equal keys
  keep their order in the list). The policy is fixed per module and there is no flag:
  \<open>crear_detallado.py\<close> returns every code under the prefix, which is \<open>children_of\<close>
  with \<open>direct_only = False\<close>; \<open>crear_pdf.py\<close> returns only those exactly one level
  below the parent, which is \<open>children_of\<close> with \<open>direct_only = True\<close>. For
  \<open>"1.01", "1.02", "2.01"\<close> both give \<open>["1.01", "1.02"]\<close> under \<open>"1"\<close> and \<open>["2.01"]\<close>
  under \<open>"2"\<close>.
\<close>

theorem children_of_parent_modes:
  "children_of_parent items parent = children_of_spec parse_key items parent False
   \<and> children_of_parent_pdf items parent = children_of_spec parse_key_pdf items parent True
   \<and> mset (children_of_parent items parent)
       = filter_mset (\<lambda>c. startswith c (parent @ ''.'')) (mset items)
   \<and> sorted (map parse_key (children_of_parent items parent))
   \<and> mset (children_of_parent_pdf items parent)
       = filter_mset (\<lambda>c. startswith c (parent @ ''.'') \<and> depth c = depth parent + 1) (mset items)
   \<and> sorted (map parse_key_pdf (children_of_parent_pdf items parent))
   \<and> children_of_parent [''1.01'', ''1.02'', ''2.01''] ''1'' = [''1.01'', ''1.02'']
   \<and> children_of_parent [''1.01'', ''1.02'', ''2.01''] ''2'' = [''2.01'']
   \<and> children_of_parent_pdf [''1.01'', ''1.02'', ''2.01''] ''1'' = [''1.01'', ''1.02'']
   \<and> children_of_parent_pdf [''1.01'', ''1.02'', ''2.01''] ''2'' = [''2.01'']"
proof -
  have "children_of_parent items parent = children_of_spec parse_key items parent False"
    by (simp add: children_of_parent_def children_of_spec_def)
  moreover have
    "children_of_parent_pdf items parent = children_of_spec parse_key_pdf items parent True"
    by (simp add: children_of_parent_pdf_def children_of_spec_def count_dot_depth)
  moreover have "mset (children_of_parent items parent)
       = filter_mset (\<lambda>c. startswith c (parent @ ''.'')) (mset items)"
    "sorted (map parse_key (children_of_parent items parent))"
    by (simp_all add: children_of_parent_def)
  moreover have "mset (children_of_parent_pdf items parent)
       = filter_mset (\<lambda>c. startswith c (parent @ ''.'') \<and> depth c = depth parent + 1) (mset items)"
    "sorted (map parse_key_pdf (children_of_parent_pdf items parent))"
    by (simp_all add: children_of_parent_pdf_def count_dot_depth)
  moreover have
    "children_of_parent [''1.01'', ''1.02'', ''2.01''] ''1'' = [''1.01'', ''1.02'']"
    "children_of_parent [''1.01'', ''1.02'', ''2.01''] ''2'' = [''2.01'']"
    "children_of_parent_pdf [''1.01'', ''1.02'', ''2.01''] ''1'' = [''1.01'', ''1.02'']"
    "children_of_parent_pdf [''1.01'', ''1.02'', ''2.01''] ''2'' = [''2.01'']"
    by code_simp+
  ultimately show ?thesis by blast
qed

theorem children_of_parent_modes_witness:
  "children_of_spec parse_key_pdf [''1.01'', ''1.01.01'', ''2.01''] ''1'' True = [''1.01'']
   \<and> children_of_spec parse_key [''1.01'', ''1.01.01'', ''2.01''] ''1'' False
       = [''1.01'', ''1.01.01'']"
proof -
  have "children_of_parent_pdf [''1.01'', ''1.01.01'', ''2.01''] ''1'' = [''1.01'']"
    "children_of_parent [''1.01'', ''1.01.01'', ''2.01''] ''1'' = [''1.01'', ''1.01.01'']"
    by code_simp+
  with children_of_parent_modes[of "[''1.01'', ''1.01.01'', ''2.01'']" "''1''"]
  show ?thesis by simp
qed

theorem children_of_parent_flag_counterexample:
  "children_of_parent [''1.01'', ''1.01.01''] ''1''
     \<noteq> children_of_spec parse_key [''1.01'', ''1.01.01''] ''1'' True
   \<and> children_of_parent_pdf [''1.01'', ''1.01.01''] ''1''
     \<noteq> children_of_spec parse_key_pdf [''1.01'', ''1.01.01''] ''1'' False"
  by code_simp

section \<open>The detail table invariant\<close>












section \<open>The grand total\<close>


























section \<open>Item codes through CSV\<close>

text \<open>
  Claim C3 at an input where the code departs from it. \<open>generar_excel_detallado\<close>
  reads \<open>Item\<close> with \<open>dtype=str\<close> and keeps \<open>"1.10"\<close>. \<open>load_presupuesto\<close> and
  \<open>generar_pdf_presupuesto\<close> read it without a \<open>dtype\<close>: a column of the codes \<open>1.10\<close>
  and \<open>1.20\<close> is loaded as floats and written back as \<open>1.1\<close> and \<open>1.2\<close>; the code
  \<open>1.01\<close> is held as the number 1.01; and the PDF, which looks its string codes up in
  the float index, skips every row, so that the project of three items priced 1000,
  2000 and 3000 totals 0.
\<close>

theorem item_code_roundtrip_fails:
  "map_option save_presupuesto_Item (load_presupuesto_Item [''1.10'', ''1.20''])
     = Some [''1.1'', ''1.2'']
   \<and> read_csv_Item_str [''1.10'', ''1.20''] = (Object, [''1.10'', ''1.20''])
   \<and> load_presupuesto_Item [''1.01''] = Some (Float64, [''1.01''])
   \<and> read_csv_Item [''1.01'', ''1.02'', ''2.01''] = Some (Float64, [''1.01'', ''1.02'', ''2.01''])
   \<and> generar_pdf_presupuesto (\<lambda>xs. xs) Float64
         (Some [item_row ''1.01'' 1, item_row ''1.02'' 1, item_row ''2.01'' 1])
         (Some [detail_row ''1.01'' ''A'' 1, detail_row ''1.02'' ''B'' 1, detail_row ''2.01'' ''C'' 1])
         [catalog_row ''A'' 1000, catalog_row ''B'' 2000, catalog_row ''C'' 3000]
       = Inr (Some 0)"
  by code_simp

end
